theory Spec2Isabelle
  imports Complex_Main "HOL-Library.Char_ord" "HOL-Library.List_Lexorder"
begin

section \<open>Numbers of the program\<close>

text \<open>
  A C++ \<open>double\<close> is modelled as a real number or one of the three special values of
  IEEE 754. The operations \<open>dadd\<close>, \<open>dsub\<close>, \<open>dmul\<close> and \<open>ddiv\<close> are exact on finite
  values, and \<open>round_dbl\<close> below rounds a result to the nearest binary64 number. The
  sampler rounds every result, because it compares a sum with \<open>save_time\<close> to the last
  bit; the builder and the selector compute exactly. The sign of zero is not modelled
  (every zero divisor that this code can produce is the positive zero, so a finite
  nonzero value divided by zero takes the sign of the numerator). Comparisons with
  \<open>NaN\<close> are false, as in C++.
\<close>

datatype dbl = Fin real | PInf | NInf | NaN

fun dless :: "dbl \<Rightarrow> dbl \<Rightarrow> bool" where
  "dless (Fin x) (Fin y) = (x < y)"
| "dless (Fin x) PInf = True"
| "dless NInf (Fin y) = True"
| "dless NInf PInf = True"
| "dless _ _ = False"

fun dle :: "dbl \<Rightarrow> dbl \<Rightarrow> bool" where
  "dle (Fin x) (Fin y) = (x \<le> y)"
| "dle (Fin x) PInf = True"
| "dle NInf (Fin y) = True"
| "dle NInf PInf = True"
| "dle PInf PInf = True"
| "dle NInf NInf = True"
| "dle _ _ = False"

fun dneg :: "dbl \<Rightarrow> dbl" where
  "dneg (Fin x) = Fin (- x)"
| "dneg PInf = NInf"
| "dneg NInf = PInf"
| "dneg NaN = NaN"

fun dadd :: "dbl \<Rightarrow> dbl \<Rightarrow> dbl" where
  "dadd (Fin x) (Fin y) = Fin (x + y)"
| "dadd NaN _ = NaN"
| "dadd _ NaN = NaN"
| "dadd PInf NInf = NaN"
| "dadd NInf PInf = NaN"
| "dadd PInf _ = PInf"
| "dadd _ PInf = PInf"
| "dadd NInf _ = NInf"
| "dadd _ NInf = NInf"

definition dsub :: "dbl \<Rightarrow> dbl \<Rightarrow> dbl" where
  "dsub a b = dadd a (dneg b)"

definition signed_inf :: "real \<Rightarrow> dbl" where
  "signed_inf s = (if 0 < s then PInf else if s < 0 then NInf else NaN)"

fun dmul :: "dbl \<Rightarrow> dbl \<Rightarrow> dbl" where
  "dmul (Fin x) (Fin y) = Fin (x * y)"
| "dmul NaN _ = NaN"
| "dmul _ NaN = NaN"
| "dmul (Fin x) PInf = signed_inf x"
| "dmul (Fin x) NInf = signed_inf (- x)"
| "dmul PInf (Fin y) = signed_inf y"
| "dmul NInf (Fin y) = signed_inf (- y)"
| "dmul PInf PInf = PInf"
| "dmul NInf NInf = PInf"
| "dmul PInf NInf = NInf"
| "dmul NInf PInf = NInf"

fun ddiv :: "dbl \<Rightarrow> dbl \<Rightarrow> dbl" where
  "ddiv (Fin x) (Fin y) = (if y = 0 then signed_inf x else Fin (x / y))"
| "ddiv NaN _ = NaN"
| "ddiv _ NaN = NaN"
| "ddiv (Fin x) PInf = Fin 0"
| "ddiv (Fin x) NInf = Fin 0"
| "ddiv PInf (Fin y) = (if 0 \<le> y then PInf else NInf)"
| "ddiv NInf (Fin y) = (if 0 \<le> y then NInf else PInf)"
| "ddiv _ _ = NaN"

fun dabs :: "dbl \<Rightarrow> dbl" where
  "dabs (Fin x) = Fin \<bar>x\<bar>"
| "dabs PInf = PInf"
| "dabs NInf = PInf"
| "dabs NaN = NaN"

text \<open>\<open>std::max(a, b)\<close> is \<open>(a < b) ? b : a\<close> and \<open>std::min(a, b)\<close> is \<open>(b < a) ? b : a\<close>.\<close>

definition dmax :: "dbl \<Rightarrow> dbl \<Rightarrow> dbl" where
  "dmax a b = (if dless a b then b else a)"

definition dmin :: "dbl \<Rightarrow> dbl \<Rightarrow> dbl" where
  "dmin a b = (if dless b a then b else a)"

text \<open>
  Rounding to binary64, to nearest with ties to even: a real of magnitude \<open>a\<close> in the
  binade \<open>2^e \<le> a < 2^(e+1)\<close> is rounded to a multiple of \<open>2^(e-52)\<close>, below \<open>2^-1022\<close> to
  a multiple of \<open>2^-1074\<close>, and what rounds to \<open>2^1024\<close> or more becomes an infinity.
  \<open>binade n a\<close> finds the binade of \<open>a\<close> in at most \<open>n\<close> steps.
\<close>

definition round_half_even :: "real \<Rightarrow> int" where
  "round_half_even y =
     (let f = \<lfloor>y\<rfloor>; d = y - of_int f
      in if d < 1 / 2 then f else if 1 / 2 < d then f + 1 else if even f then f else f + 1)"

fun binade :: "nat \<Rightarrow> real \<Rightarrow> int" where
  "binade 0 a = 0"
| "binade (Suc n) a =
     (if 2 \<le> a then binade n (a / 2) + 1 else if a < 1 then binade n (2 * a) - 1 else 0)"

definition pow2 :: "int \<Rightarrow> real" where
  "pow2 e = (if 0 \<le> e then 2 ^ nat e else 1 / 2 ^ nat (- e))"

definition to_double :: "real \<Rightarrow> dbl" where
  "to_double x =
     (if x = 0 then Fin 0
      else
        (let a = \<bar>x\<bar>;
             e0 = binade 1100 a;
             e = max e0 (- 1022);
             u = pow2 (e - 52);
             m = round_half_even (a / u)
         in if 1023 < e0 \<or> (e0 = 1023 \<and> 2 ^ 53 \<le> m) then (if 0 < x then PInf else NInf)
            else Fin (if 0 < x then of_int m * u else - (of_int m * u))))"

definition round_dbl :: "dbl \<Rightarrow> dbl" where
  "round_dbl d = (case d of Fin x \<Rightarrow> to_double x | _ \<Rightarrow> d)"

text \<open>\<open>pow(x, 2)\<close>: the square; infinite for an infinite argument, \<open>NaN\<close> for \<open>NaN\<close>.\<close>

definition dpow2 :: "dbl \<Rightarrow> dbl" where
  "dpow2 x = dmul x x"

text \<open>
  Machine integers (\<open>int\<close>) are modelled as unbounded integers: the code only counts
  species and takes absolute values of stoichiometric changes. The conversion of an
  \<open>int\<close> to \<open>double\<close> is exact.
\<close>

definition int_to_double :: "int \<Rightarrow> dbl" where
  "int_to_double i = Fin (of_int i)"

text \<open>
  The conversion of a \<open>double\<close> to \<open>int\<close> truncates toward zero. C++ leaves it undefined
  when the truncated value does not fit the 32-bit \<open>int\<close> (in particular for an infinity
  or \<open>NaN\<close>); the integer a platform produces then is the parameter \<open>ub\<close>, and nothing
  is assumed about it.
\<close>

definition double_to_int :: "int \<Rightarrow> dbl \<Rightarrow> int" where
  "double_to_int ub d =
     (case d of
        Fin r \<Rightarrow> if - 2147483649 < r \<and> r < 2147483648
                 then (if 0 \<le> r then \<lfloor>r\<rfloor> else \<lceil>r\<rceil>) else ub
      | _ \<Rightarrow> ub)"

section \<open>Containers of the program\<close>

text \<open>
  A \<open>std::map\<close> that the code only reads and writes through \<open>operator[]\<close> is a partial
  map. Reading a missing key through \<open>operator[]\<close> yields the value-initialised element
  (\<open>0\<close>, \<open>0.0\<close>, the empty vector) and inserts it: \<open>at_or m k d\<close> is the value read and
  \<open>touch m k d\<close> the map afterwards.
\<close>

definition at_or :: "('k \<rightharpoonup> 'v) \<Rightarrow> 'k \<Rightarrow> 'v \<Rightarrow> 'v" where
  "at_or m k d = (case m k of None \<Rightarrow> d | Some v \<Rightarrow> v)"

definition touch :: "('k \<rightharpoonup> 'v) \<Rightarrow> 'k \<Rightarrow> 'v \<Rightarrow> ('k \<rightharpoonup> 'v)" where
  "touch m k d = (case m k of None \<Rightarrow> m(k \<mapsto> d) | Some v \<Rightarrow> m)"

text \<open>
  A \<open>std::map\<close> that the code iterates over is an association list in ascending key
  order, which is the order of iteration; strings compare as \<open>std::string\<close> does,
  lexicographically by character code.
\<close>

type_synonym ('k, 'v) std_map = "('k \<times> 'v) list"

fun assign :: "'k::linorder \<Rightarrow> 'v \<Rightarrow> ('k, 'v) std_map \<Rightarrow> ('k, 'v) std_map" where
  "assign k v [] = [(k, v)]"
| "assign k v (e # m) =
     (if k < fst e then (k, v) # e # m
      else if k = fst e then (k, v) # m
      else e # assign k v m)"

definition erase :: "'k \<Rightarrow> ('k, 'v) std_map \<Rightarrow> ('k, 'v) std_map" where
  "erase k m = filter (\<lambda>e. fst e \<noteq> k) m"

text \<open>
  \<open>std::min_element\<close> with the comparison \<open>lhs.second < rhs.second\<close>: the first entry,
  in iteration order, that no later entry is smaller than. On an empty range it returns
  the end iterator, which must not be dereferenced: \<open>None\<close>.
\<close>

fun min_scan :: "('k \<times> dbl) \<Rightarrow> ('k, dbl) std_map \<Rightarrow> ('k \<times> dbl)" where
  "min_scan smallest [] = smallest"
| "min_scan smallest (e # es) =
     min_scan (if dless (snd e) (snd smallest) then e else smallest) es"

fun min_element :: "('k, dbl) std_map \<Rightarrow> ('k \<times> dbl) option" where
  "min_element [] = None"
| "min_element (e # es) = Some (min_scan e es)"

section \<open>The reaction network\<close>

text \<open>
  Modelled from the spec: the types \<open>Species\<close>, \<open>Reaction\<close> and \<open>Model\<close> are declared in
  \<open>model.h\<close>, which is not among the sources. A species has a name and an integer id, a
  reaction has a name and one signed stoichiometric change per species (negative:
  consumed, positive: produced), a model has its species and reactions with their
  counts. Only the fields that \<open>Tau.cpp\<close> reads are kept.
\<close>

record Species =
  id_s :: nat
  name_s :: string

record Reaction =
  name_r :: string
  species_change :: "int list"

record Model =
  number_species :: nat
  species :: "Species list"
  number_reactions :: nat
  reactions :: "Reaction list"

text \<open>
  Modelled from the spec: \<open>std::set<Species>\<close> needs the order on \<open>Species\<close> of
  \<open>model.h\<close>; species are taken to be ordered, and identified, by their id. The set is
  the list of its elements in ascending order.
\<close>

fun set_insert :: "Species \<Rightarrow> Species list \<Rightarrow> Species list" where
  "set_insert s [] = [s]"
| "set_insert s (t # ts) =
     (if id_s s < id_s t then s # t # ts
      else if id_s s = id_s t then t # ts
      else t # set_insert s ts)"

section \<open>TauArgs and its builder\<close>

record TauArgs =
  HOR :: "string \<rightharpoonup> int"
  reactants :: "Species list"
  g_i_lambdas :: "(string, dbl \<Rightarrow> dbl) std_map"
  g_i :: "string \<rightharpoonup> int"
  epsilon_i :: "string \<rightharpoonup> dbl"
  reactions_reactants :: "nat \<rightharpoonup> nat list"
  products :: "nat \<rightharpoonup> nat list"
  critical_threshold :: int

definition empty_tau_args :: TauArgs where
  "empty_tau_args =
     \<lparr>HOR = Map.empty, reactants = [], g_i_lambdas = [], g_i = Map.empty,
      epsilon_i = Map.empty, reactions_reactants = Map.empty, products = Map.empty,
      critical_threshold = 10\<rparr>"

text \<open>
  The three closures of \<open>initialize\<close>. The literals are \<open>int\<close>s that C++ converts where
  they meet a \<open>double\<close>; in \<open>lambda_2_3\<close> the factor \<open>(3 / 2)\<close> is a quotient of two
  \<open>int\<close>s, computed before the conversion.
\<close>

definition lambda_2_2 :: "dbl \<Rightarrow> dbl" where
  "lambda_2_2 x = dadd (int_to_double 2) (ddiv (int_to_double 1) (dsub x (int_to_double 1)))"

definition lambda_2_3 :: "dbl \<Rightarrow> dbl" where
  "lambda_2_3 x =
     dmul (int_to_double (3 div 2))
       (dadd (int_to_double 2) (ddiv (int_to_double 1) (dsub x (int_to_double 1))))"

definition lambda_3 :: "dbl \<Rightarrow> dbl" where
  "lambda_3 x =
     dadd (dadd (int_to_double 3) (ddiv (int_to_double 1) (dsub x (int_to_double 1))))
       (ddiv (int_to_double 2) (dsub x (int_to_double 2)))"

text \<open>Lines 42 to 45: the highest order of every species starts at 0.\<close>

definition init_HOR :: "Model \<Rightarrow> TauArgs \<Rightarrow> TauArgs" where
  "init_HOR model tau_args =
     fold (\<lambda>i ta. ta\<lparr>HOR := (HOR ta)(name_s (species model ! i) \<mapsto> 0)\<rparr>)
       [0..<number_species model] tau_args"

text \<open>
  Lines 50 to 60, one species of reaction \<open>r\<close>: a produced species is appended to
  \<open>products[r]\<close>, a consumed one counts for the order of the reaction, is appended to
  \<open>reactions_reactants[r]\<close> and joins the set of reactants.
\<close>

definition push_back :: "(nat \<rightharpoonup> nat list) \<Rightarrow> nat \<Rightarrow> nat \<Rightarrow> (nat \<rightharpoonup> nat list)" where
  "push_back m r x = m(r \<mapsto> at_or m r [] @ [x])"

definition scan_species :: "Model \<Rightarrow> nat \<Rightarrow> nat \<Rightarrow> int \<times> TauArgs \<Rightarrow> int \<times> TauArgs" where
  "scan_species model r spec st =
     (let rxn_order = fst st; ta = snd st;
          change = species_change (reactions model ! r) ! spec
      in if 0 < change then (rxn_order, ta\<lparr>products := push_back (products ta) r spec\<rparr>)
         else if change < 0 then
           (rxn_order + 1,
            ta\<lparr>reactions_reactants := push_back (reactions_reactants ta) r spec,
               reactants := set_insert (species model ! spec) (reactants ta)\<rparr>)
         else (rxn_order, ta))"

text \<open>
  Lines 67 to 93, one reactant of reaction \<open>r\<close>: when the order of the reaction exceeds
  the highest order recorded for the species, the record and \<open>g_i\<close> are raised to it and,
  by the number of molecules consumed, either a closure is stored or \<open>epsilon_i\<close> is set.
\<close>

definition update_reactant :: "Model \<Rightarrow> dbl \<Rightarrow> nat \<Rightarrow> int \<Rightarrow> nat \<Rightarrow> TauArgs \<Rightarrow> TauArgs" where
  "update_reactant model tau_tol r rxn_order reactant tau_args =
     (let nm = name_s (species model ! reactant);
          ta0 = tau_args\<lparr>HOR := touch (HOR tau_args) nm 0\<rparr>
      in if at_or (HOR ta0) nm 0 < rxn_order then
           (let ta1 = ta0\<lparr>HOR := (HOR ta0)(nm \<mapsto> rxn_order)\<rparr>;
                ta2 = ta1\<lparr>g_i := (g_i ta1)(nm \<mapsto> at_or (HOR ta1) nm 0)\<rparr>;
                count = \<bar>species_change (reactions model ! r) ! reactant\<bar>
            in if count = 2 \<and> rxn_order = 2 then
                 ta2\<lparr>g_i_lambdas := assign nm lambda_2_2 (g_i_lambdas ta2)\<rparr>
               else if count = 2 \<and> rxn_order = 3 then
                 ta2\<lparr>g_i_lambdas := assign nm lambda_2_3 (g_i_lambdas ta2)\<rparr>
               else if count = 3 then
                 ta2\<lparr>g_i_lambdas := assign nm lambda_3 (g_i_lambdas ta2)\<rparr>
               else
                 (let ta3 = ta2\<lparr>g_i := (g_i ta2)(nm \<mapsto> at_or (HOR ta2) nm 0)\<rparr>
                  in ta3\<lparr>epsilon_i := (epsilon_i ta3)
                           (nm \<mapsto> ddiv tau_tol (int_to_double (at_or (g_i ta3) nm 0)))\<rparr>))
         else ta0)"

text \<open>Lines 47 to 96, one reaction.\<close>

definition init_reaction :: "Model \<Rightarrow> dbl \<Rightarrow> nat \<Rightarrow> TauArgs \<Rightarrow> TauArgs" where
  "init_reaction model tau_tol r tau_args =
     (let st = fold (scan_species model r) [0..<number_species model] (0, tau_args);
          rxn_order = fst st;
          ta = (snd st)\<lparr>reactions_reactants := touch (reactions_reactants (snd st)) r []\<rparr>
      in if 0 < length (at_or (reactions_reactants ta) r []) then
           fold (update_reactant model tau_tol r rxn_order)
             (at_or (reactions_reactants ta) r []) ta
         else ta)"

definition initialize :: "Model \<Rightarrow> dbl \<Rightarrow> TauArgs" where
  "initialize model tau_tol =
     fold (init_reaction model tau_tol) [0..<number_reactions model]
       (init_HOR model empty_tau_args)"

section \<open>The step-size selector\<close>

text \<open>The local variables of \<open>select\<close> that the first loop updates.\<close>

record moments =
  critical :: bool
  mu_i :: "string \<rightharpoonup> dbl"
  sigma_i :: "string \<rightharpoonup> dbl"

text \<open>Lines 114 to 118.\<close>

definition init_moments :: "Model \<Rightarrow> moments" where
  "init_moments model =
     fold (\<lambda>spec st. st\<lparr>mu_i := (mu_i st)(name_s (species model ! spec) \<mapsto> Fin 0),
                         sigma_i := (sigma_i st)(name_s (species model ! spec) \<mapsto> Fin 0)\<rparr>)
       [0..<number_species model]
       \<lparr>critical = False, mu_i = Map.empty, sigma_i = Map.empty\<rparr>"

text \<open>
  Lines 124 to 135, one reactant of one reaction: the reaction is critical when the
  population allows fewer than \<open>critical_threshold\<close> firings and the propensity is
  positive; the moments of the species grow by the propensity times the number of
  molecules consumed, and times its square.
\<close>

definition accumulate_reactant ::
  "Model \<Rightarrow> TauArgs \<Rightarrow> dbl list \<Rightarrow> int list \<Rightarrow> nat \<Rightarrow> nat \<Rightarrow> moments \<Rightarrow> moments" where
  "accumulate_reactant model tau_args propensity_values current_state reaction reactant st =
     (let change = species_change (reactions model ! reaction) ! reactant
      in if change < 0 then
           (let v = \<bar>change\<bar>;
                st1 = (if dless (ddiv (int_to_double (current_state ! reactant)) (int_to_double v))
                            (int_to_double (critical_threshold tau_args))
                          \<and> dless (Fin 0) (propensity_values ! reaction)
                       then st\<lparr>critical := True\<rparr> else st);
                consumed = \<bar>change\<bar>;
                nm = name_s (species model ! reactant);
                st2 = st1\<lparr>mu_i := (mu_i st1)(nm \<mapsto>
                        dadd (at_or (mu_i st1) nm (Fin 0))
                          (dmul (int_to_double consumed) (propensity_values ! reaction)))\<rparr>
            in st2\<lparr>sigma_i := (sigma_i st2)(nm \<mapsto>
                    dadd (at_or (sigma_i st2) nm (Fin 0))
                      (dmul (dpow2 (int_to_double consumed)) (propensity_values ! reaction)))\<rparr>)
         else st)"

text \<open>
  Lines 120 to 137, one reaction. Reading \<open>reactions_reactants[reaction]\<close> inserts the
  empty vector when the key is missing, which is the only change to \<open>tau_args\<close> here.
\<close>

definition accumulate_reaction ::
  "Model \<Rightarrow> dbl list \<Rightarrow> int list \<Rightarrow> nat \<Rightarrow> TauArgs \<times> moments \<Rightarrow> TauArgs \<times> moments" where
  "accumulate_reaction model propensity_values current_state reaction s =
     (let ta = (fst s)\<lparr>reactions_reactants := touch (reactions_reactants (fst s)) reaction []\<rparr>
      in (ta, fold (accumulate_reactant model ta propensity_values current_state reaction)
                (at_or (reactions_reactants ta) reaction []) (snd s)))"

definition accumulate ::
  "Model \<Rightarrow> TauArgs \<Rightarrow> dbl list \<Rightarrow> int list \<Rightarrow> TauArgs \<times> moments" where
  "accumulate model tau_args propensity_values current_state =
     fold (accumulate_reaction model propensity_values current_state)
       [0..<number_reactions model] (tau_args, init_moments model)"

text \<open>Lines 143 to 147: the expected waiting time of every reaction that can fire.\<close>

definition critical_taus :: "Model \<Rightarrow> dbl list \<Rightarrow> (string, dbl) std_map" where
  "critical_taus model propensity_values =
     fold (\<lambda>reaction ct.
             if dless (Fin 0) (propensity_values ! reaction)
             then assign (name_r (reactions model ! reaction))
                    (ddiv (int_to_double 1) (propensity_values ! reaction)) ct
             else ct)
       [0..<number_reactions model] []"

text \<open>
  Lines 158 to 160, the body of the loop over the pending closures, for the entry \<open>x\<close>
  the loop stands on: the closure is evaluated at \<open>g_i\<close> of its species, the result is
  stored as \<open>g_i\<close> (an \<open>int\<close>), \<open>epsilon_i\<close> is set from it and the entry is erased.
\<close>

definition refine_entry :: "int \<Rightarrow> dbl \<Rightarrow> string \<times> (dbl \<Rightarrow> dbl) \<Rightarrow> TauArgs \<Rightarrow> TauArgs" where
  "refine_entry ub tau_tol x tau_args =
     (let ta1 = tau_args\<lparr>g_i := touch (g_i tau_args) (fst x) 0\<rparr>;
          ta2 = ta1\<lparr>g_i := (g_i ta1)(fst x \<mapsto>
                  double_to_int ub (snd x (int_to_double (at_or (g_i ta1) (fst x) 0))))\<rparr>;
          ta3 = ta2\<lparr>epsilon_i := (epsilon_i ta2)(fst x \<mapsto>
                  ddiv tau_tol (int_to_double (at_or (g_i ta2) (fst x) 0)))\<rparr>
      in ta3\<lparr>g_i_lambdas := erase (fst x) (g_i_lambdas ta3)\<rparr>)"

text \<open>
  What can stop \<open>select\<close>. \<open>std::min_element\<close> on the empty map of critical waiting
  times returns the end iterator, and line 150 dereferences it. The loop of lines 156
  to 161 erases the entry its iterator stands on and then advances that iterator, which
  C++ leaves undefined; the fault carries \<open>tau_args\<close> as the body left it, the last
  state that is defined.
\<close>

datatype fault = End_Iterator_Dereferenced | Erased_Iterator_Advanced TauArgs

text \<open>
  Lines 154 to 162. With no closure pending the loop is not entered. Otherwise the
  range-for starts at the first entry in key order and runs the body on it; line 160
  erases that entry, and the increment of its iterator that follows is undefined,
  whatever else is pending.
\<close>

definition refine :: "int \<Rightarrow> dbl \<Rightarrow> TauArgs \<Rightarrow> fault + TauArgs" where
  "refine ub tau_tol tau_args =
     (if 0 < length (g_i_lambdas tau_args) then
        (case g_i_lambdas tau_args of
           x # rest \<Rightarrow> Inl (Erased_Iterator_Advanced (refine_entry ub tau_tol x tau_args))
         | [] \<Rightarrow> Inr tau_args)
      else Inr tau_args)"

text \<open>
  Lines 166 to 175, one reactant species. Reading \<open>epsilon_i[r.name]\<close> inserts \<open>0.0\<close>
  when the key is missing. The quotient by \<open>sigma_i\<close> is computed whenever \<open>mu_i\<close> is
  positive.
\<close>

definition bound_reactant ::
  "moments \<Rightarrow> int list \<Rightarrow> Species \<Rightarrow> TauArgs \<times> (string, dbl) std_map
     \<Rightarrow> TauArgs \<times> (string, dbl) std_map" where
  "bound_reactant st current_state r s =
     (let ta = (fst s)\<lparr>epsilon_i := touch (epsilon_i (fst s)) (name_s r) (Fin 0)\<rparr>;
          calculated_max =
            dmul (at_or (epsilon_i ta) (name_s r) (Fin 0)) (int_to_double (current_state ! id_s r));
          max_pop_change_mean = dmax calculated_max (Fin 1);
          max_pop_change_sd = dpow2 max_pop_change_mean
      in if dless (Fin 0) (at_or (mu_i st) (name_s r) (Fin 0)) then
           (ta, assign (name_s r)
                  (dmin (dabs (ddiv max_pop_change_mean (at_or (mu_i st) (name_s r) (Fin 0))))
                        (ddiv max_pop_change_sd (at_or (sigma_i st) (name_s r) (Fin 0))))
                  (snd s))
         else (ta, snd s))"

definition bounds :: "moments \<Rightarrow> int list \<Rightarrow> TauArgs \<Rightarrow> TauArgs \<times> (string, dbl) std_map" where
  "bounds st current_state tau_args =
     fold (bound_reactant st current_state) (reactants tau_args) (tau_args, [])"

text \<open>Lines 202 to 213.\<close>

definition clamp_tau :: "dbl \<Rightarrow> dbl \<Rightarrow> dbl \<Rightarrow> dbl" where
  "clamp_tau tau current_time save_time =
     (if dless (Fin 0) tau then
        (let tau1 = dmax tau (Fin (1 / 10 ^ 10))
         in if dless (Fin 0) (dsub save_time current_time)
            then dmin tau1 (dsub save_time current_time) else tau1)
      else dsub save_time current_time)"

text \<open>
  Lines 103 to 200: the step size before it is clamped, with \<open>tau_args\<close> as the call
  leaves it. The result also carries the critical flag and the map \<open>tau_i\<close>.
\<close>

record selection =
  tau_args_out :: TauArgs
  critical_out :: bool
  tau_i_out :: "(string, dbl) std_map"
  tau_out :: dbl

definition select_tau ::
  "int \<Rightarrow> Model \<Rightarrow> TauArgs \<Rightarrow> dbl \<Rightarrow> dbl list \<Rightarrow> int list \<Rightarrow> fault + selection" where
  "select_tau ub model tau_args tau_tol propensity_values current_state =
     (let non_critical_tau0 = Fin 0;
          critical_tau0 = Fin 0;
          acc = accumulate model tau_args propensity_values current_state;
          st = snd acc
      in case (if critical st
               then (case min_element (critical_taus model propensity_values) of
                       None \<Rightarrow> Inl End_Iterator_Dereferenced
                     | Some m \<Rightarrow> Inr (snd m))
               else Inr critical_tau0) of
           Inl f \<Rightarrow> Inl f
         | Inr critical_tau \<Rightarrow>
            (case refine ub tau_tol (fst acc) of
               Inl f \<Rightarrow> Inl f
             | Inr ta \<Rightarrow>
            (let b = bounds st current_state ta;
                 tau_i = snd b;
                 non_critical_tau =
                   (if 0 < length tau_i
                    then (case min_element tau_i of Some m \<Rightarrow> snd m | None \<Rightarrow> non_critical_tau0)
                    else non_critical_tau0);
                 tau = (if \<not> critical st then non_critical_tau
                        else if length tau_i = 0 then critical_tau
                        else dmin non_critical_tau critical_tau)
             in Inr \<lparr>tau_args_out = fst b, critical_out = critical st,
                     tau_i_out = tau_i, tau_out = tau\<rparr>)))"

text \<open>
  \<open>select\<close>: the step size returned, and \<open>tau_args\<close> as the call leaves it (the argument
  is a mutable reference).
\<close>

definition select ::
  "int \<Rightarrow> Model \<Rightarrow> TauArgs \<Rightarrow> dbl \<Rightarrow> dbl \<Rightarrow> dbl \<Rightarrow> dbl list \<Rightarrow> int list \<Rightarrow> fault + dbl \<times> TauArgs" where
  "select ub model tau_args tau_tol current_time save_time propensity_values current_state =
     (case select_tau ub model tau_args tau_tol propensity_values current_state of
        Inl f \<Rightarrow> Inl f
      | Inr s \<Rightarrow> Inr (clamp_tau (tau_out s) current_time save_time, tau_args_out s))"

section \<open>The firing sampler\<close>

text \<open>
  The random number library is not part of the program. Its three pieces are
  parameters of the model: \<open>rd\<close> is the number that \<open>std::random_device\<close> yields in
  this call, \<open>mt19937\<close> turns a seed into a generator, and \<open>poisson mean g\<close> draws one
  sample from generator \<open>g\<close> and returns it with the generator after the draw.
\<close>

text \<open>Lines 226 and 227; the sum and the difference are rounded.\<close>

definition clip_tau_step :: "dbl \<Rightarrow> dbl \<Rightarrow> dbl \<Rightarrow> dbl" where
  "clip_tau_step tau_step current_time save_time =
     (if dless save_time (round_dbl (dadd current_time tau_step))
      then round_dbl (dsub save_time current_time) else tau_step)"

definition get_reactions ::
  "(nat \<Rightarrow> 'g) \<Rightarrow> (dbl \<Rightarrow> 'g \<Rightarrow> int \<times> 'g) \<Rightarrow> nat \<Rightarrow>
     Model \<Rightarrow> dbl list \<Rightarrow> dbl \<Rightarrow> dbl \<Rightarrow> dbl \<Rightarrow> (string, int) std_map \<times> dbl" where
  "get_reactions mt19937 poisson rd model propensity_values tau_step current_time save_time =
     (let tau_step1 = clip_tau_step tau_step current_time save_time;
          generator = mt19937 rd;
          drawn = fold (\<lambda>i s.
                     (let sample = poisson (round_dbl (dmul (propensity_values ! i) tau_step1)) (snd s)
                      in (assign (name_r (reactions model ! i)) (fst sample) (fst s), snd sample)))
                    [0..<number_reactions model] ([], generator);
          current_time1 = round_dbl (dadd current_time tau_step1)
      in (fst drawn, current_time1))"

section \<open>Inputs, calls and the words of the specification\<close>

text \<open>
  A valid model has as many species and reactions as it says, one stoichiometric change
  per species in every reaction, species whose id is their index, and no two species of
  the same name.
\<close>

definition valid_model :: "Model \<Rightarrow> bool" where
  "valid_model model \<longleftrightarrow>
     length (species model) = number_species model \<and>
     length (reactions model) = number_reactions model \<and>
     (\<forall>rx\<in>set (reactions model). length (species_change rx) = number_species model) \<and>
     map id_s (species model) = [0..<number_species model] \<and>
     distinct (map name_s (species model))"

text \<open>
  A \<open>TauArgs\<close> fits a model when its containers are well formed (keys ascending, none
  twice) and the species they refer to exist.
\<close>

definition valid_tau_args :: "Model \<Rightarrow> TauArgs \<Rightarrow> bool" where
  "valid_tau_args model tau_args \<longleftrightarrow>
     sorted (map fst (g_i_lambdas tau_args)) \<and> distinct (map fst (g_i_lambdas tau_args)) \<and>
     sorted (map id_s (reactants tau_args)) \<and> distinct (map id_s (reactants tau_args)) \<and>
     (\<forall>s\<in>set (reactants tau_args). id_s s < number_species model) \<and>
     (\<forall>r\<in>set [0..<number_reactions model].
        \<forall>x\<in>set (at_or (reactions_reactants tau_args) r []). x < number_species model)"

definition valid_input :: "Model \<Rightarrow> TauArgs \<Rightarrow> dbl list \<Rightarrow> int list \<Rightarrow> bool" where
  "valid_input model tau_args propensity_values current_state \<longleftrightarrow>
     valid_model model \<and> valid_tau_args model tau_args \<and>
     length propensity_values = number_reactions model \<and>
     length current_state = number_species model"

definition nonnegative_propensities :: "Model \<Rightarrow> dbl list \<Rightarrow> bool" where
  "nonnegative_propensities model propensity_values \<longleftrightarrow>
     (\<forall>r\<in>set [0..<number_reactions model]. dle (Fin 0) (propensity_values ! r))"

text \<open>
  The words of the specification for the highest order: a reaction consumes a species
  when its stoichiometric change is negative, the order of a reaction is the number of
  distinct species it consumes, and the highest order of a species is the maximum order
  of the reactions that consume it, 0 when there is none.
\<close>

definition consumes :: "Model \<Rightarrow> nat \<Rightarrow> nat \<Rightarrow> bool" where
  "consumes model r s \<longleftrightarrow> species_change (reactions model ! r) ! s < 0"

definition reaction_order :: "Model \<Rightarrow> nat \<Rightarrow> int" where
  "reaction_order model r = int (card {s \<in> set [0..<number_species model]. consumes model r s})"

definition highest_order :: "Model \<Rightarrow> nat \<Rightarrow> int" where
  "highest_order model s =
     Max (insert 0 (reaction_order model ` {r \<in> set [0..<number_reactions model]. consumes model r s}))"

text \<open>
  Truncation toward zero, as a relation between a real number and an integer: the
  integer is no larger in magnitude, less than one away, and on the same side of zero.
\<close>

definition truncates_to :: "real \<Rightarrow> int \<Rightarrow> bool" where
  "truncates_to r z \<longleftrightarrow>
     \<bar>of_int z\<bar> \<le> \<bar>r\<bar> \<and> \<bar>r\<bar> < \<bar>of_int z\<bar> + 1 \<and> (0 \<le> r \<longrightarrow> 0 \<le> z) \<and> (r \<le> 0 \<longrightarrow> z \<le> 0)"

text \<open>
  Two states of the moments that the first loop of \<open>select\<close> keeps once it is in them:
  no critical reaction seen and every drift zero; every drift nonnegative and no larger
  than the variance of the same species.
\<close>

definition quiescent :: "moments \<Rightarrow> bool" where
  "quiescent st \<longleftrightarrow> \<not> critical st \<and> (\<forall>k. at_or (mu_i st) k (Fin 0) = Fin 0)"

definition drift_bounded :: "moments \<Rightarrow> bool" where
  "drift_bounded st \<longleftrightarrow>
     (\<forall>k. dle (Fin 0) (at_or (mu_i st) k (Fin 0)) \<and>
          dle (at_or (mu_i st) k (Fin 0)) (at_or (sigma_i st) k (Fin 0)))"


section \<open>Four reaction networks\<close>

text \<open>
  Species \<open>A\<close>, \<open>B\<close>, \<open>C\<close> with the reactions \<open>2A + B \<rightarrow> \<emptyset>\<close> and \<open>A + B + C \<rightarrow> \<emptyset>\<close>.
\<close>

definition abc :: "Species list" where
  "abc = [\<lparr>id_s = 0, name_s = ''A''\<rparr>, \<lparr>id_s = 1, name_s = ''B''\<rparr>, \<lparr>id_s = 2, name_s = ''C''\<rparr>]"

definition network_two_steps :: Model where
  "network_two_steps =
     \<lparr>number_species = 3, species = abc, number_reactions = 2,
      reactions = [\<lparr>name_r = ''r0'', species_change = [- 2, - 1, 0]\<rparr>,
                   \<lparr>name_r = ''r1'', species_change = [- 1, - 1, - 1]\<rparr>]\<rparr>"

text \<open>The same species with the single reaction \<open>2A + B + C \<rightarrow> \<emptyset>\<close>.\<close>

definition network_third_order :: Model where
  "network_third_order =
     \<lparr>number_species = 3, species = abc, number_reactions = 1,
      reactions = [\<lparr>name_r = ''r0'', species_change = [- 2, - 1, - 1]\<rparr>]\<rparr>"

text \<open>Species \<open>A\<close> and \<open>B\<close> with the single reaction \<open>2A + 2B \<rightarrow> \<emptyset>\<close>.\<close>

definition network_pairs :: Model where
  "network_pairs =
     \<lparr>number_species = 2,
      species = [\<lparr>id_s = 0, name_s = ''A''\<rparr>, \<lparr>id_s = 1, name_s = ''B''\<rparr>],
      number_reactions = 1,
      reactions = [\<lparr>name_r = ''r0'', species_change = [- 2, - 2]\<rparr>]\<rparr>"

text \<open>One species \<open>A\<close> with the reactions \<open>A \<rightarrow> \<emptyset>\<close> and \<open>2A \<rightarrow> \<emptyset>\<close>.\<close>

definition network_decay :: Model where
  "network_decay =
     \<lparr>number_species = 1, species = [\<lparr>id_s = 0, name_s = ''A''\<rparr>], number_reactions = 2,
      reactions = [\<lparr>name_r = ''r0'', species_change = [- 1]\<rparr>,
                   \<lparr>name_r = ''r1'', species_change = [- 2]\<rparr>]\<rparr>"

section \<open>Properties of the builder\<close>

lemma upt_small: "[0..<3] = [0, 1, 2]" "[0..<2] = [0, 1]" "[0..<1] = [0]"
  by (simp_all add: upt_rec)

subsection \<open>The highest order of a species\<close>

lemma init_HOR_fold:
  "HOR (fold (\<lambda>i ta. ta\<lparr>HOR := (HOR ta)(f i \<mapsto> 0)\<rparr>) xs ta) k
     = (if k \<in> f ` set xs then Some 0 else HOR ta k) \<and>
   reactions_reactants (fold (\<lambda>i ta. ta\<lparr>HOR := (HOR ta)(f i \<mapsto> 0)\<rparr>) xs ta)
     = reactions_reactants ta"
  by (induction xs arbitrary: ta) auto

lemma scan_species_fold:
  "fst (fold (scan_species model r) xs st)
     = fst st + int (length (filter (consumes model r) xs)) \<and>
   HOR (snd (fold (scan_species model r) xs st)) = HOR (snd st) \<and>
   at_or (reactions_reactants (snd (fold (scan_species model r) xs st))) r []
     = at_or (reactions_reactants (snd st)) r [] @ filter (consumes model r) xs \<and>
   (\<forall>r'. r' \<noteq> r \<longrightarrow> reactions_reactants (snd (fold (scan_species model r) xs st)) r'
                        = reactions_reactants (snd st) r')"
proof (induction xs arbitrary: st)
  case Nil
  then show ?case by simp
next
  case (Cons x xs)
  have step: "fst (scan_species model r x st) = fst st + (if consumes model r x then 1 else 0) \<and>
     HOR (snd (scan_species model r x st)) = HOR (snd st) \<and>
     at_or (reactions_reactants (snd (scan_species model r x st))) r []
       = at_or (reactions_reactants (snd st)) r [] @ (if consumes model r x then [x] else []) \<and>
     (\<forall>r'. r' \<noteq> r \<longrightarrow> reactions_reactants (snd (scan_species model r x st)) r'
                        = reactions_reactants (snd st) r')"
    by (auto simp: scan_species_def consumes_def Let_def push_back_def at_or_def)
  show ?case
    using Cons.IH [of "scan_species model r x st"] step by simp
qed

lemma update_reactant_HOR:
  "HOR (update_reactant model tol r ord x ta) k
     = (if k = name_s (species model ! x) then Some (max (at_or (HOR ta) k 0) ord) else HOR ta k) \<and>
   reactions_reactants (update_reactant model tol r ord x ta) = reactions_reactants ta"
  by (auto simp: update_reactant_def Let_def at_or_def touch_def split: option.splits)

lemma fold_update_reactant_HOR:
  "HOR (fold (update_reactant model tol r ord) xs ta) k
     = (if k \<in> (\<lambda>x. name_s (species model ! x)) ` set xs
        then Some (max (at_or (HOR ta) k 0) ord) else HOR ta k) \<and>
   reactions_reactants (fold (update_reactant model tol r ord) xs ta) = reactions_reactants ta"
proof (induction xs arbitrary: ta)
  case Nil
  then show ?case by simp
next
  case (Cons x xs)
  show ?case
    using Cons.IH [of "update_reactant model tol r ord x ta"] update_reactant_HOR [of model tol r ord x ta]
    by (auto simp: at_or_def)
qed

lemma reaction_order_length:
  "reaction_order model r = int (length (filter (consumes model r) [0..<number_species model]))"
proof -
  have "{s \<in> set [0..<number_species model]. consumes model r s}
          = set (filter (consumes model r) [0..<number_species model])"
    by auto
  moreover have "distinct (filter (consumes model r) [0..<number_species model])" by simp
  ultimately show ?thesis
    unfolding reaction_order_def by (simp only: distinct_card)
qed

lemma init_reaction_HOR:
  assumes "reactions_reactants ta r = None"
  shows "HOR (init_reaction model tol r ta) k
     = (if k \<in> (\<lambda>x. name_s (species model ! x)) ` {x \<in> set [0..<number_species model]. consumes model r x}
        then Some (max (at_or (HOR ta) k 0) (reaction_order model r)) else HOR ta k) \<and>
     (\<forall>r'. r' \<noteq> r \<longrightarrow> reactions_reactants (init_reaction model tol r ta) r' = reactions_reactants ta r')"
proof -
  define st where "st = fold (scan_species model r) [0..<number_species model] (0, ta)"
  define ta1 where "ta1 = (snd st)\<lparr>reactions_reactants := touch (reactions_reactants (snd st)) r []\<rparr>"
  define xs where "xs = filter (consumes model r) [0..<number_species model]"
  have st: "fst st = reaction_order model r" "HOR (snd st) = HOR ta"
    "at_or (reactions_reactants (snd st)) r [] = xs"
    "\<forall>r'. r' \<noteq> r \<longrightarrow> reactions_reactants (snd st) r' = reactions_reactants ta r'"
    using scan_species_fold [of model r "[0..<number_species model]" "(0, ta)"] assms
    by (simp_all add: st_def xs_def reaction_order_length at_or_def)
  have ta1: "HOR ta1 = HOR ta" "at_or (reactions_reactants ta1) r [] = xs"
    "\<forall>r'. r' \<noteq> r \<longrightarrow> reactions_reactants ta1 r' = reactions_reactants ta r'"
    using st by (auto simp: ta1_def touch_def at_or_def split: option.splits)
  have rr1: "at_or (touch (reactions_reactants (snd st)) r []) r [] = xs"
    using ta1(2) by (simp add: ta1_def)
  have eq: "init_reaction model tol r ta = fold (update_reactant model tol r (reaction_order model r)) xs ta1"
    unfolding init_reaction_def Let_def st_def [symmetric]
    using st(1) rr1 by (cases xs) (simp_all add: ta1_def)
  have "set xs = {x \<in> set [0..<number_species model]. consumes model r x}"
    by (auto simp: xs_def)
  then show ?thesis
    unfolding eq using fold_update_reactant_HOR [of model tol r "reaction_order model r" xs ta1] ta1
    by (simp add: at_or_def)
qed


lemma valid_model_names_inj:
  assumes "valid_model model" and "i < number_species model" and "j < number_species model"
    and "name_s (species model ! i) = name_s (species model ! j)"
  shows "i = j"
proof -
  from assms(1) have d: "distinct (map name_s (species model))"
    and l: "length (species model) = number_species model"
    by (simp_all add: valid_model_def)
  from assms(2,3,4) l have "map name_s (species model) ! i = map name_s (species model) ! j"
    by simp
  moreover from assms(2,3) l have "i < length (map name_s (species model))"
    "j < length (map name_s (species model))" by simp_all
  ultimately show ?thesis using d nth_eq_iff_index_eq by blast
qed

lemma consumed_name_iff:
  assumes "valid_model model" and "i < number_species model"
  shows "name_s (species model ! i)
           \<in> (\<lambda>x. name_s (species model ! x)) ` {x \<in> set [0..<number_species model]. consumes model r x}
         \<longleftrightarrow> consumes model r i"
  using assms valid_model_names_inj [OF assms(1)] by auto

lemma Max_orders_Suc:
  "Max (insert 0 (f ` {r \<in> set [0..<Suc k]. P r}))
     = (if P k then max (Max (insert (0::int) (f ` {r \<in> set [0..<k]. P r}))) (f k)
        else Max (insert 0 (f ` {r \<in> set [0..<k]. P r})))"
proof (cases "P k")
  case True
  then have "{r \<in> set [0..<Suc k]. P r} = insert k {r \<in> set [0..<k]. P r}"
    by (auto simp: less_Suc_eq)
  then have "insert 0 (f ` {r \<in> set [0..<Suc k]. P r})
               = insert (f k) (insert 0 (f ` {r \<in> set [0..<k]. P r}))"
    by auto
  moreover have "Max (insert (f k) (insert 0 (f ` {r \<in> set [0..<k]. P r})))
                   = max (f k) (Max (insert 0 (f ` {r \<in> set [0..<k]. P r})))"
    by (rule Max_insert) simp_all
  ultimately show ?thesis using True by (simp add: max.commute)
next
  case False
  then have "{r \<in> set [0..<Suc k]. P r} = {r \<in> set [0..<k]. P r}"
    by (auto simp: less_Suc_eq)
  with False show ?thesis by simp
qed

lemma fold_init_reaction_HOR:
  assumes "valid_model model"
    and "\<forall>i<number_species model. HOR ta0 (name_s (species model ! i)) = Some 0"
    and "\<forall>r. reactions_reactants ta0 r = None"
  shows "(\<forall>i<number_species model.
            HOR (fold (init_reaction model tol) [0..<k] ta0) (name_s (species model ! i))
              = Some (Max (insert 0 (reaction_order model ` {r \<in> set [0..<k]. consumes model r i})))) \<and>
         (\<forall>r\<ge>k. reactions_reactants (fold (init_reaction model tol) [0..<k] ta0) r = None)"
proof (induction k)
  case 0
  with assms(2,3) show ?case by simp
next
  case (Suc k)
  define ta where "ta = fold (init_reaction model tol) [0..<k] ta0"
  from Suc have hor: "\<forall>i<number_species model. HOR ta (name_s (species model ! i))
              = Some (Max (insert 0 (reaction_order model ` {r \<in> set [0..<k]. consumes model r i})))"
    and fresh: "\<forall>r\<ge>k. reactions_reactants ta r = None"
    by (simp_all add: ta_def)
  from fresh have k: "reactions_reactants ta k = None" by simp
  have fold: "fold (init_reaction model tol) [0..<Suc k] ta0 = init_reaction model tol k ta"
    by (simp add: ta_def)
  note step = init_reaction_HOR [OF k, of model tol]
  have "HOR (init_reaction model tol k ta) (name_s (species model ! i))
          = Some (Max (insert 0 (reaction_order model ` {r \<in> set [0..<Suc k]. consumes model r i})))"
    if i: "i < number_species model" for i
  proof -
    from hor i have old: "HOR ta (name_s (species model ! i))
        = Some (Max (insert 0 (reaction_order model ` {r \<in> set [0..<k]. consumes model r i})))"
      by simp
    show ?thesis
      unfolding Max_orders_Suc [of "reaction_order model" k "\<lambda>r. consumes model r i"]
      using step [of "name_s (species model ! i)"] consumed_name_iff [OF assms(1) i, of k] old
      by (simp add: at_or_def)
  qed
  moreover have "reactions_reactants (init_reaction model tol k ta) r = None" if "Suc k \<le> r" for r
    using step fresh that by simp
  ultimately show ?case unfolding fold by blast
qed

text \<open>
  Claim C7. After \<open>initialize\<close>, the entry of \<open>HOR\<close> for every species of a valid model
  is the maximum order of the reactions that consume the species, the order of a
  reaction being the number of distinct species it consumes, and 0 when no reaction
  consumes the species.
\<close>

theorem HOR_is_highest_order:
  assumes "valid_model model" and "s < number_species model"
  shows "HOR (initialize model tau_tol) (name_s (species model ! s)) = Some (highest_order model s)"
proof -
  have base: "\<forall>i<number_species model. HOR (init_HOR model empty_tau_args) (name_s (species model ! i)) = Some 0"
    unfolding init_HOR_def
    using init_HOR_fold [of "\<lambda>i. name_s (species model ! i)" "[0..<number_species model]" empty_tau_args]
    by simp
  have fresh: "\<forall>r. reactions_reactants (init_HOR model empty_tau_args) r = None"
    unfolding init_HOR_def
    using init_HOR_fold [of "\<lambda>i. name_s (species model ! i)" "[0..<number_species model]" empty_tau_args]
    by (simp add: empty_tau_args_def)
  from fold_init_reaction_HOR [OF assms(1) base fresh, of tau_tol "number_reactions model"] assms(2)
  show ?thesis by (simp add: initialize_def highest_order_def)
qed

theorem HOR_is_highest_order_witness:
  "valid_model network_two_steps \<and> (0 :: nat) < number_species network_two_steps \<and>
   HOR (initialize network_two_steps (Fin (3 / 100))) (name_s (species network_two_steps ! 0))
     = Some (highest_order network_two_steps 0) \<and>
   highest_order network_two_steps 0 = 3"
proof -
  have h1: "valid_model network_two_steps" by code_simp
  have h2: "(0 :: nat) < number_species network_two_steps" by code_simp
  have v: "highest_order network_two_steps 0 = 3" by code_simp
  from HOR_is_highest_order [OF h1 h2, of "Fin (3 / 100)"] h1 h2 v show ?thesis by blast
qed

subsection \<open>The closure for two molecules in a reaction of order three\<close>

text \<open>
  Claim C3 says that this closure computes \<open>1.5 (2 + 1/(x - 1))\<close>. In the network
  \<open>2A + B + C \<rightarrow> \<emptyset>\<close> the builder stores it for \<open>A\<close>, whose \<open>g_i\<close> is 3; evaluated there
  it yields \<open>5/2\<close>, the value of \<open>2 + 1/(x - 1)\<close>, and not \<open>15/4\<close>: the factor \<open>(3 / 2)\<close>
  of line 80 is a quotient of \<open>int\<close>s and equals 1.
\<close>

theorem third_order_closure_value:
  "g_i_lambdas (initialize network_third_order tau_tol) = [(''A'', lambda_2_3)] \<and>
   g_i (initialize network_third_order tau_tol) ''A'' = Some 3 \<and>
   lambda_2_3 (int_to_double 3) = Fin (5 / 2) \<and>
   lambda_2_3 (int_to_double 3) \<noteq> Fin (3 / 2 * (2 + 1 / (3 - 1)))"
proof -
  have "g_i_lambdas (initialize network_third_order tau_tol) = [(''A'', lambda_2_3)]"
    by (simp add: initialize_def init_reaction_def init_HOR_def network_third_order_def abc_def
      empty_tau_args_def scan_species_def update_reactant_def upt_small push_back_def
      at_or_def touch_def Let_def)
  moreover have "g_i (initialize network_third_order tau_tol) ''A'' = Some 3"
    by (simp add: initialize_def init_reaction_def init_HOR_def network_third_order_def abc_def
      empty_tau_args_def scan_species_def update_reactant_def upt_small push_back_def
      at_or_def touch_def Let_def)
  moreover have "lambda_2_3 (int_to_double 3) = Fin (5 / 2)"
    by (simp add: lambda_2_3_def int_to_double_def dsub_def)
  ultimately show ?thesis by simp
qed

section \<open>Properties of the selector\<close>

subsection \<open>When the selector returns\<close>

lemma clamp_tau_range:
  assumes "c < s"
  shows "\<exists>t. clamp_tau tau (Fin c) (Fin s) = Fin t \<and> 0 < t \<and> t \<le> s - c"
proof -
  define e :: real where "e = 1 / 10 ^ 10"
  have e: "0 < e" by (simp add: e_def)
  have "clamp_tau tau (Fin c) (Fin s) =
          (if dless (Fin 0) tau then dmin (dmax tau (Fin e)) (Fin (s - c)) else Fin (s - c))"
    using assms by (simp add: clamp_tau_def dsub_def Let_def e_def)
  with assms e show ?thesis
    by (cases tau) (auto simp: dmax_def dmin_def)
qed

lemma clamp_tau_positive:
  assumes "c < s" "0 < r"
  shows "clamp_tau (Fin r) (Fin c) (Fin s) = Fin (min (max r (1 / 10 ^ 10)) (s - c))"
  using assms by (auto simp: clamp_tau_def dmax_def dmin_def dsub_def Let_def)

lemma clamp_tau_infinite:
  assumes "c < s"
  shows "clamp_tau PInf (Fin c) (Fin s) = Fin (s - c)"
  using assms by (simp add: clamp_tau_def dmax_def dmin_def dsub_def Let_def)

lemma critical_init_fold:
  "critical (fold (\<lambda>spec st. st\<lparr>mu_i := (mu_i st)(f spec \<mapsto> Fin 0),
                         sigma_i := (sigma_i st)(f spec \<mapsto> Fin 0)\<rparr>) xs st0) = critical st0"
  by (induction xs arbitrary: st0) auto

lemma critical_init_moments: "\<not> critical (init_moments model)"
  by (simp add: init_moments_def critical_init_fold)

lemma critical_accumulate_reactant:
  "critical (accumulate_reactant model ta p cs r x st) \<Longrightarrow> critical st \<or> dless (Fin 0) (p ! r)"
  by (auto simp: accumulate_reactant_def Let_def split: if_splits)

lemma critical_fold_reactant:
  "critical (fold (accumulate_reactant model ta p cs r) xs st) \<Longrightarrow> critical st \<or> dless (Fin 0) (p ! r)"
proof (induction xs arbitrary: st)
  case Nil
  then show ?case by simp
next
  case (Cons x xs)
  then show ?case using critical_accumulate_reactant by fastforce
qed

lemma critical_fold_reaction:
  "critical (snd (fold (accumulate_reaction model p cs) rs s))
     \<Longrightarrow> critical (snd s) \<or> (\<exists>r\<in>set rs. dless (Fin 0) (p ! r))"
proof (induction rs arbitrary: s)
  case Nil
  then show ?case by simp
next
  case (Cons r rs)
  from Cons.IH [OF Cons.prems [simplified]]
  show ?case
    using critical_fold_reactant by (fastforce simp: accumulate_reaction_def Let_def)
qed

lemma assign_not_Nil: "assign k v m \<noteq> []"
  by (cases m) auto

lemma critical_taus_fold_keeps:
  "ct \<noteq> [] \<Longrightarrow>
   fold (\<lambda>reaction ct. if dless (Fin 0) (p ! reaction) then assign (f reaction) (g reaction) ct else ct) rs ct \<noteq> []"
  by (induction rs arbitrary: ct) (auto simp: assign_not_Nil)

lemma critical_taus_fold_nonempty:
  "\<exists>r\<in>set rs. dless (Fin 0) (p ! r) \<Longrightarrow>
   fold (\<lambda>reaction ct. if dless (Fin 0) (p ! reaction) then assign (f reaction) (g reaction) ct else ct) rs ct \<noteq> []"
proof (induction rs arbitrary: ct)
  case Nil
  then show ?case by simp
next
  case (Cons r rs)
  then show ?case
    by (cases "dless (Fin 0) (p ! r)") (auto simp: assign_not_Nil critical_taus_fold_keeps)
qed

lemma critical_needs_waiting_time:
  assumes "critical (snd (accumulate model ta p cs))"
  shows "critical_taus model p \<noteq> []"
proof -
  from assms have "\<exists>r\<in>set [0..<number_reactions model]. dless (Fin 0) (p ! r)"
    unfolding accumulate_def
    using critical_fold_reaction [of model p cs "[0..<number_reactions model]" "(ta, init_moments model)"]
    by (simp add: critical_init_moments)
  then show ?thesis
    unfolding critical_taus_def by (rule critical_taus_fold_nonempty)
qed

lemma accumulate_reaction_frame:
  "\<exists>rr. fst (accumulate_reaction model p cs r s) = (fst s)\<lparr>reactions_reactants := rr\<rparr>"
  by (auto simp: accumulate_reaction_def Let_def)

lemma fold_accumulate_reaction_frame:
  "\<exists>rr. fst (fold (accumulate_reaction model p cs) rs s) = (fst s)\<lparr>reactions_reactants := rr\<rparr>"
proof (induction rs arbitrary: s)
  case Nil
  have "fst s = (fst s)\<lparr>reactions_reactants := reactions_reactants (fst s)\<rparr>" by simp
  then show ?case by (metis fold_simps(1))
next
  case (Cons r rs)
  obtain rr where 1: "fst (accumulate_reaction model p cs r s) = (fst s)\<lparr>reactions_reactants := rr\<rparr>"
    using accumulate_reaction_frame by blast
  obtain rr' where "fst (fold (accumulate_reaction model p cs) rs (accumulate_reaction model p cs r s))
      = (fst (accumulate_reaction model p cs r s))\<lparr>reactions_reactants := rr'\<rparr>"
    using Cons.IH by blast
  with 1 show ?case by auto
qed

lemma accumulate_frame:
  "\<exists>rr. fst (accumulate model ta p cs) = ta\<lparr>reactions_reactants := rr\<rparr>"
  unfolding accumulate_def using fold_accumulate_reaction_frame [of model p cs _ "(ta, init_moments model)"]
  by simp


lemma refine_none_pending: "g_i_lambdas ta = [] \<Longrightarrow> refine ub tol ta = Inr ta"
  by (simp add: refine_def)

lemma refine_pending:
  "g_i_lambdas ta = x # rest \<Longrightarrow>
   refine ub tol ta = Inl (Erased_Iterator_Advanced (refine_entry ub tol x ta))"
  by (simp add: refine_def)

lemma accumulate_lambdas:
  "g_i_lambdas (fst (accumulate model ta p cs)) = g_i_lambdas ta"
proof -
  obtain rr where "fst (accumulate model ta p cs) = ta\<lparr>reactions_reactants := rr\<rparr>"
    using accumulate_frame by blast
  then show ?thesis by simp
qed

lemma critical_tau_defined:
  "\<exists>t. (if critical (snd (accumulate model ta p cs))
         then (case min_element (critical_taus model p) of
                 None \<Rightarrow> Inl End_Iterator_Dereferenced
               | Some m \<Rightarrow> Inr (snd m))
         else Inr (Fin 0)) = Inr t"
proof (cases "critical (snd (accumulate model ta p cs))")
  case True
  then obtain e es where "critical_taus model p = e # es"
    using critical_needs_waiting_time by (cases "critical_taus model p") auto
  with True show ?thesis by simp
next
  case False
  then show ?thesis by simp
qed

lemma select_faults_when_pending:
  assumes "g_i_lambdas ta = x # rest"
  shows "select ub model ta tol ct svt p cs
           = Inl (Erased_Iterator_Advanced (refine_entry ub tol x (fst (accumulate model ta p cs))))"
proof -
  obtain t where t: "(if critical (snd (accumulate model ta p cs))
         then (case min_element (critical_taus model p) of
                 None \<Rightarrow> Inl End_Iterator_Dereferenced
               | Some m \<Rightarrow> Inr (snd m))
         else Inr (Fin 0)) = Inr t"
    using critical_tau_defined by blast
  have "g_i_lambdas (fst (accumulate model ta p cs)) = x # rest"
    using assms by (simp add: accumulate_lambdas)
  then have "refine ub tol (fst (accumulate model ta p cs))
      = Inl (Erased_Iterator_Advanced (refine_entry ub tol x (fst (accumulate model ta p cs))))"
    by (rule refine_pending)
  with t show ?thesis by (simp add: select_def select_tau_def Let_def)
qed

lemma select_tau_when_none_pending:
  assumes "g_i_lambdas ta = []"
  shows "\<exists>tau. select_tau ub model ta tol p cs =
     Inr \<lparr>tau_args_out = fst (bounds (snd (accumulate model ta p cs)) cs (fst (accumulate model ta p cs))),
          critical_out = critical (snd (accumulate model ta p cs)),
          tau_i_out = snd (bounds (snd (accumulate model ta p cs)) cs (fst (accumulate model ta p cs))),
          tau_out = tau\<rparr>"
proof -
  obtain t where t: "(if critical (snd (accumulate model ta p cs))
         then (case min_element (critical_taus model p) of
                 None \<Rightarrow> Inl End_Iterator_Dereferenced
               | Some m \<Rightarrow> Inr (snd m))
         else Inr (Fin 0)) = Inr t"
    using critical_tau_defined by blast
  have "refine ub tol (fst (accumulate model ta p cs)) = Inr (fst (accumulate model ta p cs))"
    using assms by (intro refine_none_pending) (simp add: accumulate_lambdas)
  with t show ?thesis by (simp add: select_tau_def Let_def)
qed

text \<open>
  With no closure pending, \<open>select\<close> returns: its step size lies in
  \<open>(0, save_time - current_time]\<close> when \<open>current_time < save_time\<close>, and it is exactly
  \<open>save_time - current_time\<close> when every propensity is zero.
\<close>

lemma select_step_in_range_when_none_pending:
  assumes "g_i_lambdas tau_args = []" and "c < s"
  shows "\<exists>sel tau.
           select_tau ub model tau_args tau_tol propensity_values current_state = Inr sel \<and>
           select ub model tau_args tau_tol (Fin c) (Fin s) propensity_values current_state
             = Inr (Fin tau, tau_args_out sel) \<and>
           0 < tau \<and> tau \<le> s - c \<and>
           (\<forall>r. tau_out sel = Fin r \<and> 0 < r \<longrightarrow> tau = min (max r (1 / 10 ^ 10)) (s - c)) \<and>
           (tau_out sel = PInf \<longrightarrow> tau = s - c)"
proof -
  obtain sel where sel: "select_tau ub model tau_args tau_tol propensity_values current_state = Inr sel"
    using select_tau_when_none_pending [OF assms(1)] by blast
  obtain tau where tau: "clamp_tau (tau_out sel) (Fin c) (Fin s) = Fin tau" "0 < tau" "tau \<le> s - c"
    using clamp_tau_range [OF assms(2)] by blast
  have "tau = min (max r (1 / 10 ^ 10)) (s - c)" if "tau_out sel = Fin r" "0 < r" for r
    using clamp_tau_positive [OF assms(2) that(2)] tau(1) that(1) by simp
  moreover have "tau = s - c" if "tau_out sel = PInf"
    using clamp_tau_infinite [OF assms(2)] tau(1) that by simp
  ultimately show ?thesis using sel tau by (simp add: select_def)
qed

lemma quiescent_init_fold:
  "quiescent st0 \<Longrightarrow>
   quiescent (fold (\<lambda>spec st. st\<lparr>mu_i := (mu_i st)(f spec \<mapsto> Fin 0),
                                 sigma_i := (sigma_i st)(f spec \<mapsto> Fin 0)\<rparr>) xs st0)"
  by (induction xs arbitrary: st0) (auto simp: quiescent_def at_or_def)

lemma quiescent_init_moments: "quiescent (init_moments model)"
  unfolding init_moments_def by (rule quiescent_init_fold) (simp add: quiescent_def at_or_def)

lemma quiescent_accumulate_reactant:
  "quiescent st \<Longrightarrow> p ! r = Fin 0 \<Longrightarrow> quiescent (accumulate_reactant model ta p cs r x st)"
  by (auto simp: accumulate_reactant_def quiescent_def at_or_def int_to_double_def Let_def)

lemma quiescent_fold_reactant:
  "quiescent st \<Longrightarrow> p ! r = Fin 0 \<Longrightarrow> quiescent (fold (accumulate_reactant model ta p cs r) xs st)"
  by (induction xs arbitrary: st) (auto simp: quiescent_accumulate_reactant)

lemma quiescent_fold_reaction:
  "quiescent (snd s) \<Longrightarrow> \<forall>r\<in>set rs. p ! r = Fin 0 \<Longrightarrow>
   quiescent (snd (fold (accumulate_reaction model p cs) rs s))"
proof (induction rs arbitrary: s)
  case Nil
  then show ?case by simp
next
  case (Cons r rs)
  then have "quiescent (snd (accumulate_reaction model p cs r s))"
    by (simp add: accumulate_reaction_def Let_def quiescent_fold_reactant)
  with Cons show ?case by simp
qed

lemma quiescent_accumulate:
  "\<forall>r\<in>set [0..<number_reactions model]. p ! r = Fin 0 \<Longrightarrow>
   quiescent (snd (accumulate model ta p cs))"
  unfolding accumulate_def by (rule quiescent_fold_reaction) (simp_all add: quiescent_init_moments)

lemma quiescent_bound_reactant:
  "quiescent st \<Longrightarrow> snd (bound_reactant st cs r s) = snd s"
  by (simp add: bound_reactant_def quiescent_def Let_def)

lemma quiescent_bounds: "quiescent st \<Longrightarrow> snd (bounds st cs ta) = []"
proof -
  assume q: "quiescent st"
  have "snd (fold (bound_reactant st cs) rs s) = snd s" for rs s
    by (induction rs arbitrary: s) (simp_all add: quiescent_bound_reactant [OF q])
  then show ?thesis by (simp add: bounds_def)
qed


lemma select_all_propensities_zero_when_none_pending:
  assumes "g_i_lambdas tau_args = []"
    and "\<forall>r\<in>set [0..<number_reactions model]. propensity_values ! r = Fin 0"
  shows "\<exists>sel.
           select_tau ub model tau_args tau_tol propensity_values current_state = Inr sel \<and>
           \<not> critical_out sel \<and> tau_i_out sel = [] \<and>
           select ub model tau_args tau_tol current_time save_time propensity_values current_state
             = Inr (dsub save_time current_time, tau_args_out sel)"
proof -
  have q: "quiescent (snd (accumulate model tau_args propensity_values current_state))"
    using assms(2) by (rule quiescent_accumulate)
  then have nc: "\<not> critical (snd (accumulate model tau_args propensity_values current_state))"
    by (simp add: quiescent_def)
  have nb: "snd (bounds (snd (accumulate model tau_args propensity_values current_state)) current_state ta) = []" for ta
    using q by (rule quiescent_bounds)
  have r: "refine ub tau_tol (fst (accumulate model tau_args propensity_values current_state))
      = Inr (fst (accumulate model tau_args propensity_values current_state))"
    using assms(1) by (intro refine_none_pending) (simp add: accumulate_lambdas)
  show ?thesis
    by (simp add: select_def select_tau_def Let_def nc nb r clamp_tau_def)
qed

lemma two_steps_lambdas:
  "g_i_lambdas (initialize network_two_steps tol) = [(''A'', lambda_2_2)]"
  by (simp add: initialize_def init_reaction_def init_HOR_def network_two_steps_def abc_def
      empty_tau_args_def scan_species_def update_reactant_def upt_small push_back_def
      at_or_def touch_def Let_def)


lemma two_steps_valid_input:
  "valid_input network_two_steps (initialize network_two_steps (Fin (3 / 100)))
     [Fin 1, Fin 2] [100, 100, 100]"
  "valid_input network_two_steps (initialize network_two_steps (Fin (3 / 100)))
     [Fin 0, Fin 0] [100, 100, 100]"
  by code_simp+

subsection \<open>The step size returned\<close>

text \<open>
  Claim C1 says that \<open>select\<close> returns a step size in \<open>(0, save_time - current_time]\<close>
  on every valid input with \<open>current_time < save_time\<close> and a positive propensity. In the
  network \<open>2A + B \<rightarrow> \<emptyset>\<close>, \<open>A + B + C \<rightarrow> \<emptyset>\<close> the builder leaves a closure pending for \<open>A\<close>.
  On this valid input, with the propensities 1 and 2, \<open>select\<close> enters the loop of lines
  156 to 161, erases the entry under the iterator and advances the iterator: it returns
  no step size. With no closure pending it returns the step size that the claim
  describes.
\<close>

theorem select_undefined_with_pending_closure:
  "\<exists>ta. select 0 network_two_steps (initialize network_two_steps (Fin (3 / 100))) (Fin (3 / 100))
          (Fin 0) (Fin 1) [Fin 1, Fin 2] [100, 100, 100] = Inl (Erased_Iterator_Advanced ta)"
  using select_faults_when_pending [OF two_steps_lambdas] by blast

subsection \<open>No reaction can fire\<close>

text \<open>
  Claim C6 says that with all propensities zero \<open>select\<close> returns exactly
  \<open>save_time - current_time\<close>. On the input of claim C1 with both propensities zero the
  closure pending for \<open>A\<close> stops the call in the same loop before a step size is
  chosen. With no closure pending the call returns what the claim says.
\<close>

theorem select_undefined_with_zero_propensities:
  "\<exists>ta. select 0 network_two_steps (initialize network_two_steps (Fin (3 / 100))) (Fin (3 / 100))
          (Fin 0) (Fin 1) [Fin 0, Fin 0] [100, 100, 100] = Inl (Erased_Iterator_Advanced ta)"
  using select_faults_when_pending [OF two_steps_lambdas] by blast

subsection \<open>The divisor of the variance bound\<close>

lemma drift_step:
  assumes "dle (Fin 0) a" and "dle a b" and "dle (Fin 0) p" and "1 \<le> c"
  shows "dle (Fin 0) (dadd a (dmul (int_to_double c) p)) \<and>
         dle (dadd a (dmul (int_to_double c) p)) (dadd b (dmul (dpow2 (int_to_double c)) p))"
proof -
  have c: "(1::real) \<le> of_int c" using assms(4) by simp
  have sq: "x * of_int c \<le> x * (of_int c * of_int c)" if "0 \<le> x" for x :: real
    using c that by (simp add: mult_left_mono)
  have sq': "of_int c * x \<le> of_int c * of_int c * x" if "0 \<le> x" for x :: real
    using sq [OF that] by (simp add: mult.commute mult.left_commute)
  show ?thesis
  proof (cases p)
    case (Fin x)
    with assms(3) have x: "0 \<le> x" by simp
    then have "0 \<le> of_int c * x" using c by simp
    with assms(1,2) Fin sq' [OF x] show ?thesis
      by (cases a; cases b) (auto simp: int_to_double_def dpow2_def intro: add_mono)
  next
    case PInf
    with assms(1,2) c show ?thesis
      by (cases a; cases b) (auto simp: int_to_double_def dpow2_def signed_inf_def)
  next
    case NInf
    with assms(3) show ?thesis by simp
  next
    case NaN
    with assms(3) show ?thesis by simp
  qed
qed

lemma drift_bounded_init_fold:
  "drift_bounded st0 \<Longrightarrow>
   drift_bounded (fold (\<lambda>spec st. st\<lparr>mu_i := (mu_i st)(f spec \<mapsto> Fin 0),
                                 sigma_i := (sigma_i st)(f spec \<mapsto> Fin 0)\<rparr>) xs st0)"
  by (induction xs arbitrary: st0) (auto simp: drift_bounded_def at_or_def)

lemma drift_bounded_init_moments: "drift_bounded (init_moments model)"
  unfolding init_moments_def by (rule drift_bounded_init_fold) (simp add: drift_bounded_def at_or_def)

lemma drift_bounded_accumulate_reactant:
  assumes "drift_bounded st" and "dle (Fin 0) (p ! r)"
  shows "drift_bounded (accumulate_reactant model ta p cs r x st)"
proof (cases "species_change (reactions model ! r) ! x < 0")
  case False
  with assms(1) show ?thesis by (simp add: accumulate_reactant_def Let_def)
next
  case True
  define c where "c = \<bar>species_change (reactions model ! r) ! x\<bar>"
  define nm where "nm = name_s (species model ! x)"
  have c: "1 \<le> c" using True by (simp add: c_def)
  have old: "dle (Fin 0) (at_or (mu_i st) nm (Fin 0))"
    "dle (at_or (mu_i st) nm (Fin 0)) (at_or (sigma_i st) nm (Fin 0))"
    using assms(1) by (simp_all add: drift_bounded_def)
  note step = drift_step [OF old assms(2) c]
  have mu: "mu_i (accumulate_reactant model ta p cs r x st)
      = (mu_i st)(nm \<mapsto> dadd (at_or (mu_i st) nm (Fin 0)) (dmul (int_to_double c) (p ! r)))"
    using True by (simp add: accumulate_reactant_def Let_def c_def nm_def)
  have sigma: "sigma_i (accumulate_reactant model ta p cs r x st)
      = (sigma_i st)(nm \<mapsto> dadd (at_or (sigma_i st) nm (Fin 0)) (dmul (dpow2 (int_to_double c)) (p ! r)))"
    using True by (simp add: accumulate_reactant_def Let_def c_def nm_def)
  show ?thesis
    unfolding drift_bounded_def mu sigma
  proof (intro allI)
    fix k
    show "dle (Fin 0) (at_or ((mu_i st)(nm \<mapsto> dadd (at_or (mu_i st) nm (Fin 0)) (dmul (int_to_double c) (p ! r)))) k (Fin 0)) \<and>
       dle (at_or ((mu_i st)(nm \<mapsto> dadd (at_or (mu_i st) nm (Fin 0)) (dmul (int_to_double c) (p ! r)))) k (Fin 0))
        (at_or ((sigma_i st)(nm \<mapsto> dadd (at_or (sigma_i st) nm (Fin 0)) (dmul (dpow2 (int_to_double c)) (p ! r)))) k (Fin 0))"
    proof (cases "k = nm")
      case True
      then show ?thesis using step by (simp add: at_or_def)
    next
      case False
      then show ?thesis using assms(1) by (simp add: at_or_def drift_bounded_def)
    qed
  qed
qed

lemma drift_bounded_fold_reactant:
  "drift_bounded st \<Longrightarrow> dle (Fin 0) (p ! r) \<Longrightarrow>
   drift_bounded (fold (accumulate_reactant model ta p cs r) xs st)"
  by (induction xs arbitrary: st) (auto simp: drift_bounded_accumulate_reactant)

lemma drift_bounded_fold_reaction:
  "drift_bounded (snd s) \<Longrightarrow> \<forall>r\<in>set rs. dle (Fin 0) (p ! r) \<Longrightarrow>
   drift_bounded (snd (fold (accumulate_reaction model p cs) rs s))"
proof (induction rs arbitrary: s)
  case Nil
  then show ?case by simp
next
  case (Cons r rs)
  then have "drift_bounded (snd (accumulate_reaction model p cs r s))"
    by (simp add: accumulate_reaction_def Let_def drift_bounded_fold_reactant)
  with Cons show ?case by simp
qed

lemma dless_dle_trans: "dless (Fin 0) a \<Longrightarrow> dle a b \<Longrightarrow> dless (Fin 0) b"
  by (cases a; cases b) auto

text \<open>
  Claim C5, amended. Line 173 divides by \<open>sigma_i\<close> of a species exactly when \<open>mu_i\<close> of
  the species is positive, with no test of the divisor. When no propensity is negative,
  a positive \<open>mu_i\<close> comes with a positive \<open>sigma_i\<close>, so the divisor is not zero.
\<close>

theorem sigma_positive_when_divided:
  assumes "nonnegative_propensities model propensity_values"
    and "dless (Fin 0) (at_or (mu_i (snd (accumulate model tau_args propensity_values current_state)))
                          (name_s r) (Fin 0))"
  shows "dless (Fin 0) (at_or (sigma_i (snd (accumulate model tau_args propensity_values current_state)))
                          (name_s r) (Fin 0))"
proof -
  have "drift_bounded (snd (accumulate model tau_args propensity_values current_state))"
    unfolding accumulate_def
    using assms(1) by (intro drift_bounded_fold_reaction)
      (simp_all add: drift_bounded_init_moments nonnegative_propensities_def)
  then have "dle (at_or (mu_i (snd (accumulate model tau_args propensity_values current_state))) (name_s r) (Fin 0))
                 (at_or (sigma_i (snd (accumulate model tau_args propensity_values current_state))) (name_s r) (Fin 0))"
    by (simp add: drift_bounded_def)
  with assms(2) show ?thesis by (rule dless_dle_trans)
qed

theorem sigma_positive_when_divided_witness:
  "nonnegative_propensities network_decay [Fin 4, Fin 1] \<and>
   dless (Fin 0) (at_or (mu_i (snd (accumulate network_decay (initialize network_decay (Fin (3 / 100)))
                                      [Fin 4, Fin 1] [100])))
                    (name_s \<lparr>id_s = 0, name_s = ''A''\<rparr>) (Fin 0)) \<and>
   dless (Fin 0) (at_or (sigma_i (snd (accumulate network_decay (initialize network_decay (Fin (3 / 100)))
                                      [Fin 4, Fin 1] [100])))
                    (name_s \<lparr>id_s = 0, name_s = ''A''\<rparr>) (Fin 0))"
proof -
  have h1: "nonnegative_propensities network_decay [Fin 4, Fin 1]" by code_simp
  have h2: "dless (Fin 0) (at_or (mu_i (snd (accumulate network_decay (initialize network_decay (Fin (3 / 100)))
                                      [Fin 4, Fin 1] [100])))
                    (name_s \<lparr>id_s = 0, name_s = ''A''\<rparr>) (Fin 0))"
    by code_simp
  from sigma_positive_when_divided [OF h1 h2] h1 h2 show ?thesis by blast
qed

text \<open>
  Claim C5 as stated, for every input, fails: in the network \<open>A \<rightarrow> \<emptyset>\<close>, \<open>2A \<rightarrow> \<emptyset>\<close> with
  the propensities 4 and -1, \<open>mu_i\<close> of \<open>A\<close> is \<open>4 - 2 = 2\<close> and \<open>sigma_i\<close> of \<open>A\<close> is
  \<open>4 - 4 = 0\<close>, and the division is by zero.
\<close>

theorem sigma_zero_counterexample:
  "valid_input network_decay (initialize network_decay (Fin (3 / 100))) [Fin 4, Fin (- 1)] [100] \<and>
   \<lparr>id_s = 0, name_s = ''A''\<rparr> \<in> set (reactants (initialize network_decay (Fin (3 / 100)))) \<and>
   dless (Fin 0) (at_or (mu_i (snd (accumulate network_decay (initialize network_decay (Fin (3 / 100)))
                                      [Fin 4, Fin (- 1)] [100]))) ''A'' (Fin 0)) \<and>
   at_or (sigma_i (snd (accumulate network_decay (initialize network_decay (Fin (3 / 100)))
                                      [Fin 4, Fin (- 1)] [100]))) ''A'' (Fin 0) = Fin 0"
  by code_simp

subsection \<open>Closures are evaluated once\<close>

text \<open>
  Claim C2 says that the first call of \<open>select\<close> that finds closures pending evaluates
  each of them once and removes it. In the network \<open>2A + 2B \<rightarrow> \<emptyset>\<close> the builder leaves a
  closure pending for \<open>A\<close> and one for \<open>B\<close>. The first \<open>select\<close> evaluates the closure of
  \<open>A\<close> (3 replaces 2 as \<open>g_i\<close>) and erases it; the increment of the erased iterator that
  follows is undefined, so the call does not complete, the closure of \<open>B\<close> is still
  pending and \<open>epsilon_i\<close> of \<open>B\<close> is not set.
\<close>

theorem second_closure_never_evaluated:
  "map fst (g_i_lambdas (initialize network_pairs (Fin (3 / 100)))) = [''A'', ''B''] \<and>
   g_i (initialize network_pairs (Fin (3 / 100))) ''A'' = Some 2 \<and>
   g_i (initialize network_pairs (Fin (3 / 100))) ''B'' = Some 2 \<and>
   (case select 0 network_pairs (initialize network_pairs (Fin (3 / 100))) (Fin (3 / 100))
           (Fin 0) (Fin 1) [Fin 1] [100, 100] of
      Inl (Erased_Iterator_Advanced ta) \<Rightarrow>
        (True, map fst (g_i_lambdas ta), g_i ta ''A'', g_i ta ''B'', epsilon_i ta ''B'')
    | _ \<Rightarrow> (False, [], None, None, None))
     = (True, [''B''], Some 3, Some 2, None)"
  by code_simp

subsection \<open>The refined bound factor is an integer\<close>

lemma at_or_touch: "at_or (touch m k d) k d = at_or m k d"
  by (auto simp: at_or_def touch_def split: option.splits)

lemma refine_entry_self:
  "g_i (refine_entry ub tol x ta) (fst x) =
      Some (double_to_int ub (snd x (int_to_double (at_or (g_i ta) (fst x) 0)))) \<and>
   epsilon_i (refine_entry ub tol x ta) (fst x) =
      Some (ddiv tol (int_to_double (double_to_int ub (snd x (int_to_double (at_or (g_i ta) (fst x) 0))))))"
  by (simp add: refine_entry_def Let_def at_or_touch) (simp add: at_or_def)

lemma double_to_int_truncates:
  assumes "\<bar>r\<bar> < 2147483648"
  shows "truncates_to r (double_to_int ub (Fin r))"
proof (cases "0 \<le> r")
  case True
  with assms have "double_to_int ub (Fin r) = \<lfloor>r\<rfloor>" by (simp add: double_to_int_def)
  moreover have "0 \<le> \<lfloor>r\<rfloor>" using True by simp
  moreover have "of_int \<lfloor>r\<rfloor> \<le> r" "r < of_int \<lfloor>r\<rfloor> + 1" by linarith+
  ultimately show ?thesis using True by (auto simp: truncates_to_def)
next
  case False
  with assms have "double_to_int ub (Fin r) = \<lceil>r\<rceil>" by (simp add: double_to_int_def)
  moreover have "\<lceil>r\<rceil> \<le> 0" using False by (simp add: ceiling_le_iff)
  moreover have "r \<le> of_int \<lceil>r\<rceil>" "of_int \<lceil>r\<rceil> - 1 < r" by linarith+
  ultimately show ?thesis using False by (auto simp: truncates_to_def)
qed

text \<open>
  Claim C10. When \<open>select\<close> evaluates the closure of a pending entry (the body of the
  loop, lines 158 to 160), the real result is truncated toward zero to the integer that
  is stored as \<open>g_i\<close> of the species, and \<open>epsilon_i\<close> of the species becomes \<open>tau_tol\<close>
  divided by that integer. The closure is evaluated at the \<open>g_i\<close> the species has then;
  its result is taken to be finite and to fit an \<open>int\<close>.
\<close>

theorem refined_g_i_is_truncated:
  assumes "snd x (int_to_double (at_or (g_i tau_args) (fst x) 0)) = Fin r"
    and "\<bar>r\<bar> < 2147483648"
  shows "\<exists>z. g_i (refine_entry ub tau_tol x tau_args) (fst x) = Some z \<and> truncates_to r z \<and>
             epsilon_i (refine_entry ub tau_tol x tau_args) (fst x)
               = Some (ddiv tau_tol (int_to_double z))"
proof -
  define z where "z = double_to_int ub (Fin r)"
  have "g_i (refine_entry ub tau_tol x tau_args) (fst x) = Some z \<and>
        epsilon_i (refine_entry ub tau_tol x tau_args) (fst x) = Some (ddiv tau_tol (int_to_double z))"
    unfolding z_def using refine_entry_self [of ub tau_tol x tau_args] assms(1) by simp
  moreover have "truncates_to r z"
    unfolding z_def using assms(2) by (rule double_to_int_truncates)
  ultimately show ?thesis by blast
qed

text \<open>
  In the network \<open>2A + B \<rightarrow> \<emptyset>\<close>, \<open>A + B + C \<rightarrow> \<emptyset>\<close> the closure pending for \<open>A\<close> is
  evaluated at 3 and yields \<open>5/2\<close>, which is stored as 2.
\<close>

theorem refined_g_i_is_truncated_witness:
  "snd (''A'', lambda_2_2)
     (int_to_double (at_or (g_i (initialize network_two_steps (Fin (3 / 100))))
                       (fst (''A'', lambda_2_2)) 0)) = Fin (5 / 2) \<and>
   \<bar>5 / 2 :: real\<bar> < 2147483648 \<and>
   (\<exists>z. g_i (refine_entry 0 (Fin (3 / 100)) (''A'', lambda_2_2)
                (initialize network_two_steps (Fin (3 / 100)))) (fst (''A'', lambda_2_2)) = Some z \<and>
        truncates_to (5 / 2) z \<and>
        epsilon_i (refine_entry 0 (Fin (3 / 100)) (''A'', lambda_2_2)
                     (initialize network_two_steps (Fin (3 / 100)))) (fst (''A'', lambda_2_2))
          = Some (ddiv (Fin (3 / 100)) (int_to_double z))) \<and>
   g_i (refine_entry 0 (Fin (3 / 100)) (''A'', lambda_2_2)
          (initialize network_two_steps (Fin (3 / 100)))) ''A'' = Some 2 \<and>
   epsilon_i (refine_entry 0 (Fin (3 / 100)) (''A'', lambda_2_2)
                (initialize network_two_steps (Fin (3 / 100)))) ''A''
     = Some (ddiv (Fin (3 / 100)) (int_to_double 2))"
proof -
  have h1: "snd (''A'', lambda_2_2)
     (int_to_double (at_or (g_i (initialize network_two_steps (Fin (3 / 100))))
                       (fst (''A'', lambda_2_2)) 0)) = Fin (5 / 2)"
    by code_simp
  have h2: "\<bar>5 / 2 :: real\<bar> < 2147483648" by simp
  have v: "g_i (refine_entry 0 (Fin (3 / 100)) (''A'', lambda_2_2)
          (initialize network_two_steps (Fin (3 / 100)))) ''A'' = Some 2"
    by code_simp
  have e: "epsilon_i (refine_entry 0 (Fin (3 / 100)) (''A'', lambda_2_2)
                (initialize network_two_steps (Fin (3 / 100)))) ''A''
     = Some (ddiv (Fin (3 / 100)) (int_to_double 2))"
    by code_simp
  from refined_g_i_is_truncated [OF h1 h2, of 0 "Fin (3 / 100)"] h1 h2 v e
  show ?thesis by blast
qed

subsection \<open>A closure that outlives its reaction\<close>

text \<open>
  Claim C4 says that a species whose highest order was last set in the branch without
  closure has no closure pending after \<open>initialize\<close>, so that \<open>select\<close> leaves its \<open>g_i\<close>
  and \<open>epsilon_i\<close> alone. In the network \<open>2A + B \<rightarrow> \<emptyset>\<close>, \<open>A + B + C \<rightarrow> \<emptyset>\<close> the first
  reaction stores a closure for \<open>A\<close> and the second, of higher order, takes the branch
  without closure for \<open>A\<close>: it sets \<open>g_i\<close> to 3 and \<open>epsilon_i\<close> to \<open>tau_tol / 3\<close> but
  leaves the closure of the first reaction pending, and the body of the loop of
  \<open>select\<close>, run on that entry, rewrites \<open>g_i\<close> to 2 and \<open>epsilon_i\<close> to \<open>tau_tol / 2\<close>.
\<close>

theorem stale_closure_rewrites_epsilon:
  "HOR (initialize network_two_steps (Fin (3 / 100))) ''A'' = Some 3 \<and>
   g_i (initialize network_two_steps (Fin (3 / 100))) ''A'' = Some 3 \<and>
   epsilon_i (initialize network_two_steps (Fin (3 / 100))) ''A'' = Some (Fin (1 / 100)) \<and>
   g_i_lambdas (initialize network_two_steps (Fin (3 / 100))) = [(''A'', lambda_2_2)] \<and>
   g_i (refine_entry 0 (Fin (3 / 100)) (''A'', lambda_2_2)
          (initialize network_two_steps (Fin (3 / 100)))) ''A'' = Some 2 \<and>
   epsilon_i (refine_entry 0 (Fin (3 / 100)) (''A'', lambda_2_2)
                (initialize network_two_steps (Fin (3 / 100)))) ''A'' = Some (Fin (3 / 200))"
proof -
  have "HOR (initialize network_two_steps (Fin (3 / 100))) ''A'' = Some 3"
    by code_simp
  moreover have "g_i (initialize network_two_steps (Fin (3 / 100))) ''A'' = Some 3"
    by code_simp
  moreover have "epsilon_i (initialize network_two_steps (Fin (3 / 100))) ''A'' = Some (Fin (1 / 100))"
    by code_simp
  moreover note two_steps_lambdas [of "Fin (3 / 100)"]
  moreover have "g_i (refine_entry 0 (Fin (3 / 100)) (''A'', lambda_2_2)
          (initialize network_two_steps (Fin (3 / 100)))) ''A'' = Some 2"
    by code_simp
  moreover have "epsilon_i (refine_entry 0 (Fin (3 / 100)) (''A'', lambda_2_2)
                (initialize network_two_steps (Fin (3 / 100)))) ''A'' = Some (Fin (3 / 200))"
    by code_simp
  ultimately show ?thesis by blast
qed

section \<open>Properties of the sampler\<close>

subsection \<open>The new time\<close>

lemma get_reactions_time:
  "snd (get_reactions mt19937 poisson rd model propensity_values tau_step current_time save_time)
     = round_dbl (dadd current_time (clip_tau_step tau_step current_time save_time))"
  by (simp add: get_reactions_def Let_def)

text \<open>
  Claim C8 says that the new time never exceeds \<open>save_time\<close>. With \<open>current_time\<close> the
  binary64 number nearest to 0.3, \<open>save_time\<close> the one nearest to 0.9 and \<open>tau_step\<close> 1,
  line 226 finds the sum greater than \<open>save_time\<close>, line 227 sets \<open>tau_step\<close> to the
  rounded difference, and the rounded sum of line 239 is the binary64 number next above
  \<open>save_time\<close>.
\<close>

theorem new_time_exceeds_save_time:
  "to_double (3 / 10) = Fin (5404319552844595 / 2 ^ 54) \<and>
   to_double (9 / 10) = Fin (8106479329266893 / 2 ^ 53) \<and>
   clip_tau_step (Fin 1) (to_double (3 / 10)) (to_double (9 / 10)) = Fin (5404319552844596 / 2 ^ 53) \<and>
   snd (get_reactions mt19937 poisson rd model propensity_values (Fin 1)
          (to_double (3 / 10)) (to_double (9 / 10)))
     = Fin (8106479329266894 / 2 ^ 53) \<and>
   dless (to_double (9 / 10))
     (snd (get_reactions mt19937 poisson rd model propensity_values (Fin 1)
             (to_double (3 / 10)) (to_double (9 / 10))))"
proof -
  have a: "to_double (3 / 10) = Fin (5404319552844595 / 2 ^ 54)" by code_simp
  have b: "to_double (9 / 10) = Fin (8106479329266893 / 2 ^ 53)" by code_simp
  have c: "clip_tau_step (Fin 1) (Fin (5404319552844595 / 2 ^ 54)) (Fin (8106479329266893 / 2 ^ 53))
             = Fin (5404319552844596 / 2 ^ 53)"
    by code_simp
  have d: "round_dbl (dadd (Fin (5404319552844595 / 2 ^ 54)) (Fin (5404319552844596 / 2 ^ 53)))
             = Fin (8106479329266894 / 2 ^ 53)"
    by code_simp
  have e: "dless (Fin (8106479329266893 / 2 ^ 53)) (Fin (8106479329266894 / 2 ^ 53))"
    by simp
  show ?thesis
    unfolding get_reactions_time a b c d using e by simp
qed

subsection \<open>The draws\<close>







end
